theory Spec2Isabelle
  imports Complex_Main
begin

section \<open>Conventions of the embedding\<close>

text \<open>
  The C++ sources are embedded as pure functions over explicit state.

  \<^item> A \<open>double\<close> price is an exact rational (\<open>rat\<close>). Every price on the 1/256 grid
    below \<open>2^31\<close> is a binary fraction that a double holds exactly, and sums and
    differences of such values are exact as well; rounding, infinities and NaN are outside
    the embedding.
  \<^item> A \<open>long\<close> quantity or counter is an \<open>int\<close>, so sums and increments do not
    overflow; \<open>std::stol\<close> checks the range of a 64-bit \<open>long\<close> and the 32-bit \<open>int\<close>
    casts of \<open>Price2Frac\<close> are range-checked.
  \<^item> A thrown exception is the left summand of a result, or the second component of a
    pair when the state reached at the throw matters.
  \<^item> Undefined behaviour of C++ (dereferencing \<open>end()\<close>, indexing a vector out of range,
    a float-to-int cast out of range, a \<open>std::string\<close> built from a null pointer) is the
    outcome \<open>UndefinedBehaviour\<close>.
  \<^item> A listener is an opaque identifier; calling \<open>ProcessAdd\<close> on it appends the pair
    (listener, value) to the notification trace of the service.
\<close>

datatype exn =
    InvalidArgument       \<comment> \<open>\<open>std::invalid_argument\<close>\<close>
  | OutOfRange            \<comment> \<open>\<open>std::out_of_range\<close>\<close>
  | KeyNotFound           \<comment> \<open>\<open>std::runtime_error("Key not found")\<close>\<close>
  | UndefinedBehaviour    \<comment> \<open>no defined result in C++\<close>
  | Unmodelled            \<comment> \<open>input of \<open>std::stod\<close> that this embedding does not cover\<close>

type_synonym listener = nat

text \<open>The remainder \<open>a % b\<close> of C++: its sign is the sign of \<open>a\<close>.\<close>

definition cpp_rem :: "int \<Rightarrow> int \<Rightarrow> int" where
  "cpp_rem a b = sgn a * (\<bar>a\<bar> mod \<bar>b\<bar>)"



section \<open>products.hpp and the product table of utilities.hpp\<close>

datatype ProductType = IRSWAP | BOND

datatype BondIdType = CUSIP | ISIN

record Bond =
  productId :: string
  productType :: ProductType
  bondIdType :: BondIdType
  ticker :: string
  coupon :: rat
  maturityDate :: string

definition mkBond :: "string \<Rightarrow> BondIdType \<Rightarrow> string \<Rightarrow> rat \<Rightarrow> string \<Rightarrow> Bond" where
  "mkBond pid idt tk cp mat =
     \<lparr>productId = pid, productType = BOND, bondIdType = idt, ticker = tk, coupon = cp,
      maturityDate = mat\<rparr>"

definition productConstructors :: "(string \<times> Bond) list" where
  "productConstructors =
    [(''9128283H1'', mkBond ''9128283H1'' CUSIP ''US2Y'' (175 / 10000) ''2019/11/30''),
     (''9128283L2'', mkBond ''9128283L2'' CUSIP ''US3Y'' (1875 / 100000) ''2020/12/15''),
     (''912828M80'', mkBond ''912828M80'' CUSIP ''US5Y'' (2 / 100) ''2022/11/30''),
     (''9128283J7'', mkBond ''9128283J7'' CUSIP ''US7Y'' (2125 / 100000) ''2024/11/30''),
     (''9128283F5'', mkBond ''9128283F5'' CUSIP ''US10Y'' (225 / 10000) ''2027/12/15''),
     (''912810TW8'', mkBond ''912810TW8'' CUSIP ''US20Y'' (25 / 1000) ''2037/12/15''),
     (''912810RZ3'', mkBond ''912810RZ3'' CUSIP ''US30Y'' (275 / 10000) ''2047/12/15'')]"

definition QueryProduct :: "string \<Rightarrow> exn + Bond" where
  "QueryProduct cusip =
     (case map_of productConstructors cusip of
        None \<Rightarrow> Inl InvalidArgument
      | Some b \<Rightarrow> Inr b)"


section \<open>marketdataservice.hpp: orders and order books\<close>

datatype PricingSide = BID | OFFER

record Order =
  price :: rat
  quantity :: int
  side :: PricingSide

definition mkOrder :: "rat \<Rightarrow> int \<Rightarrow> PricingSide \<Rightarrow> Order" where
  "mkOrder p q sd = \<lparr>price = p, quantity = q, side = sd\<rparr>"

record BidOffer =
  bidOrder :: Order
  offerOrder :: Order

record OrderBook =
  product :: Bond
  bidStack :: "Order list"
  offerStack :: "Order list"

definition mkOrderBook :: "Bond \<Rightarrow> Order list \<Rightarrow> Order list \<Rightarrow> OrderBook" where
  "mkOrderBook p bs os = \<lparr>product = p, bidStack = bs, offerStack = os\<rparr>"

text \<open>
  \<open>std::max_element\<close> and \<open>std::min_element\<close> with a comparison \<open>cmp\<close>: the loops of the
  standard library, returning \<open>None\<close> for the \<open>end()\<close> iterator of an empty range and the
  first extremal element otherwise.
\<close>

fun max_loop :: "('a \<Rightarrow> 'a \<Rightarrow> bool) \<Rightarrow> 'a \<Rightarrow> 'a list \<Rightarrow> 'a" where
  "max_loop cmp largest [] = largest"
| "max_loop cmp largest (x # xs) = max_loop cmp (if cmp largest x then x else largest) xs"

fun max_element :: "('a \<Rightarrow> 'a \<Rightarrow> bool) \<Rightarrow> 'a list \<Rightarrow> 'a option" where
  "max_element cmp [] = None"
| "max_element cmp (x # xs) = Some (max_loop cmp x xs)"

fun min_loop :: "('a \<Rightarrow> 'a \<Rightarrow> bool) \<Rightarrow> 'a \<Rightarrow> 'a list \<Rightarrow> 'a" where
  "min_loop cmp smallest [] = smallest"
| "min_loop cmp smallest (x # xs) = min_loop cmp (if cmp x smallest then x else smallest) xs"

fun min_element :: "('a \<Rightarrow> 'a \<Rightarrow> bool) \<Rightarrow> 'a list \<Rightarrow> 'a option" where
  "min_element cmp [] = None"
| "min_element cmp (x # xs) = Some (min_loop cmp x xs)"

definition price_less :: "Order \<Rightarrow> Order \<Rightarrow> bool" where
  "price_less a b = (price a < price b)"

text \<open>
  \<open>OrderBook::BestBidOffer\<close> dereferences both iterators without comparing them to
  \<open>end()\<close>; on an empty stack that dereference has no defined result.
\<close>

definition BestBidOffer :: "OrderBook \<Rightarrow> exn + BidOffer" where
  "BestBidOffer ob =
     (case max_element price_less (bidStack ob) of
        None \<Rightarrow> Inl UndefinedBehaviour
      | Some bestBid \<Rightarrow>
          (case min_element price_less (offerStack ob) of
             None \<Rightarrow> Inl UndefinedBehaviour
           | Some bestOffer \<Rightarrow> Inr \<lparr>bidOrder = bestBid, offerOrder = bestOffer\<rparr>))"


section \<open>Best bid and offer\<close>

lemma max_loop_mem: "max_loop cmp a xs \<in> set (a # xs)"
  by (induction xs arbitrary: a) auto

lemma min_loop_mem: "min_loop cmp a xs \<in> set (a # xs)"
  by (induction xs arbitrary: a) auto

lemma max_loop_ge_acc: "price a \<le> price (max_loop price_less a xs)"
proof (induction xs arbitrary: a)
  case Nil
  show ?case by simp
next
  case (Cons x xs)
  have "price a \<le> price (if price_less a x then x else a)"
    by (simp add: price_less_def)
  also have "\<dots> \<le> price (max_loop price_less (if price_less a x then x else a) xs)"
    by (rule Cons.IH)
  finally show ?case by simp
qed

lemma max_loop_upper: "o' \<in> set (a # xs) \<Longrightarrow> price o' \<le> price (max_loop price_less a xs)"
proof (induction xs arbitrary: a)
  case Nil
  then show ?case by simp
next
  case (Cons x xs)
  let ?b = "if price_less a x then x else a"
  from Cons.prems consider "o' = a" | "o' = x" | "o' \<in> set xs" by auto
  then show ?case
  proof cases
    case 1
    then show ?thesis using max_loop_ge_acc [of a "x # xs"] by simp
  next
    case 2
    have "price x \<le> price ?b" by (simp add: price_less_def)
    also have "\<dots> \<le> price (max_loop price_less ?b xs)" by (rule max_loop_ge_acc)
    finally show ?thesis using 2 by simp
  next
    case 3
    then have "o' \<in> set (?b # xs)" by simp
    from Cons.IH [OF this] show ?thesis by simp
  qed
qed

lemma min_loop_le_acc: "price (min_loop price_less a xs) \<le> price a"
proof (induction xs arbitrary: a)
  case Nil
  show ?case by simp
next
  case (Cons x xs)
  have "price (min_loop price_less (if price_less x a then x else a) xs)
          \<le> price (if price_less x a then x else a)"
    by (rule Cons.IH)
  also have "\<dots> \<le> price a"
    by (simp add: price_less_def)
  finally show ?case by simp
qed

lemma min_loop_lower: "o' \<in> set (a # xs) \<Longrightarrow> price (min_loop price_less a xs) \<le> price o'"
proof (induction xs arbitrary: a)
  case Nil
  then show ?case by simp
next
  case (Cons x xs)
  let ?b = "if price_less x a then x else a"
  from Cons.prems consider "o' = a" | "o' = x" | "o' \<in> set xs" by auto
  then show ?case
  proof cases
    case 1
    then show ?thesis using min_loop_le_acc [of a "x # xs"] by simp
  next
    case 2
    have "price (min_loop price_less ?b xs) \<le> price ?b" by (rule min_loop_le_acc)
    also have "\<dots> \<le> price x" by (simp add: price_less_def)
    finally show ?thesis using 2 by simp
  next
    case 3
    then have "o' \<in> set (?b # xs)" by simp
    from Cons.IH [OF this] show ?thesis by simp
  qed
qed

lemma BestBidOffer_nonempty:
  assumes "bidStack ob = b # bs" and "offerStack ob = a # as"
  shows "BestBidOffer ob =
           Inr \<lparr>bidOrder = max_loop price_less b bs, offerOrder = min_loop price_less a as\<rparr>"
  using assms by (simp add: BestBidOffer_def)

text \<open>
  Claim C7. For an order book whose bid and offer stacks are both non-empty,
  \<open>BestBidOffer\<close> returns a value; the returned bid is an order of the bid stack whose price
  is at least the price of every order in the bid stack, and the returned offer is an order of
  the offer stack whose price is at most the price of every order in the offer stack.
\<close>

theorem BestBidOffer_extremal:
  assumes "bidStack ob \<noteq> []" and "offerStack ob \<noteq> []"
  shows "\<exists>bo. BestBidOffer ob = Inr bo
           \<and> bidOrder bo \<in> set (bidStack ob)
           \<and> offerOrder bo \<in> set (offerStack ob)
           \<and> (\<forall>x \<in> set (bidStack ob). price x \<le> price (bidOrder bo))
           \<and> (\<forall>y \<in> set (offerStack ob). price (offerOrder bo) \<le> price y)"
proof -
  from assms obtain b bs a as where
    bs: "bidStack ob = b # bs" and as: "offerStack ob = a # as"
    by (cases "bidStack ob"; cases "offerStack ob") auto
  let ?bo = "\<lparr>bidOrder = max_loop price_less b bs, offerOrder = min_loop price_less a as\<rparr>"
  have "BestBidOffer ob = Inr ?bo"
    using bs as by (rule BestBidOffer_nonempty)
  moreover have "bidOrder ?bo \<in> set (bidStack ob)"
    using max_loop_mem [of price_less b bs] bs by simp
  moreover have "offerOrder ?bo \<in> set (offerStack ob)"
    using min_loop_mem [of price_less a as] as by simp
  moreover have "\<forall>x \<in> set (bidStack ob). price x \<le> price (bidOrder ?bo)"
    using max_loop_upper [of _ b bs] bs by simp
  moreover have "\<forall>y \<in> set (offerStack ob). price (offerOrder ?bo) \<le> price y"
    using min_loop_lower [of _ a as] as by simp
  ultimately show ?thesis by blast
qed

theorem BestBidOffer_extremal_witness:
  "bidStack (mkOrderBook (mkBond ''9128283H1'' CUSIP ''US2Y'' (175 / 10000) ''2019/11/30'')
       [mkOrder 99 100 BID, mkOrder (199 / 2) 200 BID, mkOrder (199 / 2) 300 BID]
       [mkOrder 101 100 OFFER, mkOrder 100 200 OFFER]) \<noteq> []
   \<and> offerStack (mkOrderBook (mkBond ''9128283H1'' CUSIP ''US2Y'' (175 / 10000) ''2019/11/30'')
       [mkOrder 99 100 BID, mkOrder (199 / 2) 200 BID, mkOrder (199 / 2) 300 BID]
       [mkOrder 101 100 OFFER, mkOrder 100 200 OFFER]) \<noteq> []
   \<and> BestBidOffer (mkOrderBook (mkBond ''9128283H1'' CUSIP ''US2Y'' (175 / 10000) ''2019/11/30'')
       [mkOrder 99 100 BID, mkOrder (199 / 2) 200 BID, mkOrder (199 / 2) 300 BID]
       [mkOrder 101 100 OFFER, mkOrder 100 200 OFFER])
     = Inr \<lparr>bidOrder = mkOrder (199 / 2) 200 BID, offerOrder = mkOrder 100 200 OFFER\<rparr>"
  using BestBidOffer_extremal
    [of "mkOrderBook (mkBond ''9128283H1'' CUSIP ''US2Y'' (175 / 10000) ''2019/11/30'')
       [mkOrder 99 100 BID, mkOrder (199 / 2) 200 BID, mkOrder (199 / 2) 300 BID]
       [mkOrder 101 100 OFFER, mkOrder 100 200 OFFER]"]
  by (simp add: mkOrderBook_def mkOrder_def BestBidOffer_def price_less_def)

text \<open>
  Claim C3. The claim asks for an \<open>EmptyBook\<close> error when a stack is empty. The code has no
  such check: on the book \<open>OrderBook(product, {}, {})\<close> that \<open>MarketDataService::GetData\<close>
  creates for a product not seen before, \<open>max_element\<close> returns \<open>end()\<close> and
  \<open>BestBidOffer\<close> dereferences it, which is undefined behaviour and no reported error.
\<close>

theorem BestBidOffer_empty_book_undefined:
  "BestBidOffer (mkOrderBook (mkBond ''9128283H1'' CUSIP ''US2Y'' (175 / 10000) ''2019/11/30'') [] [])
     = Inl UndefinedBehaviour
   \<and> BestBidOffer (mkOrderBook (mkBond ''9128283H1'' CUSIP ''US2Y'' (175 / 10000) ''2019/11/30'')
         [mkOrder 99 100 BID] [])
     = Inl UndefinedBehaviour
   \<and> BestBidOffer (mkOrderBook (mkBond ''9128283H1'' CUSIP ''US2Y'' (175 / 10000) ''2019/11/30'')
         [] [mkOrder 100 100 OFFER])
     = Inl UndefinedBehaviour"
  by (simp add: mkOrderBook_def BestBidOffer_def)


section \<open>algoexecutionservice.hpp\<close>

datatype OrderType = FOK | IOC | MARKET | LIMIT | STOP

datatype Market = BROKERTEC | ESPEED | CME

record ExecutionOrder =
  eoProduct :: Bond
  eoSide :: PricingSide
  orderId :: string
  orderType :: OrderType
  eoPrice :: rat
  visibleQuantity :: int
  hiddenQuantity :: int
  parentOrderId :: string
  isChildOrder :: bool

record AlgoExecution =
  executionOrder :: ExecutionOrder
  market :: Market

definition mkExecutionOrder ::
  "Bond \<Rightarrow> PricingSide \<Rightarrow> string \<Rightarrow> OrderType \<Rightarrow> rat \<Rightarrow> int \<Rightarrow> int \<Rightarrow> string \<Rightarrow> bool
     \<Rightarrow> ExecutionOrder" where
  "mkExecutionOrder p sd oid ot pr vq hq poid child =
     \<lparr>eoProduct = p, eoSide = sd, orderId = oid, orderType = ot, eoPrice = pr,
      visibleQuantity = vq, hiddenQuantity = hq, parentOrderId = poid, isChildOrder = child\<rparr>"

definition mkAlgoExecution :: "ExecutionOrder \<Rightarrow> Market \<Rightarrow> AlgoExecution" where
  "mkAlgoExecution eo m = \<lparr>executionOrder = eo, market = m\<rparr>"

text \<open>
  The service: its keyed store, its listeners in registration order, the alternation
  counter, and the trace of \<open>ProcessAdd\<close> calls it has made on its listeners.
\<close>

record AlgoExecutionService =
  algoExecutionData :: "string \<rightharpoonup> AlgoExecution"
  aeListeners :: "listener list"
  count :: int
  aeNotified :: "(listener \<times> AlgoExecution) list"

definition AlgoExecutionService_init :: AlgoExecutionService where
  "AlgoExecutionService_init =
     \<lparr>algoExecutionData = Map.empty, aeListeners = [], count = 0, aeNotified = []\<rparr>"

definition AlgoExecutionService_AddListener ::
  "listener \<Rightarrow> AlgoExecutionService \<Rightarrow> AlgoExecutionService" where
  "AlgoExecutionService_AddListener l s = s\<lparr>aeListeners := aeListeners s @ [l]\<rparr>"

definition AlgoExecutionService_GetData ::
  "string \<Rightarrow> AlgoExecutionService \<Rightarrow> exn + AlgoExecution" where
  "AlgoExecutionService_GetData key s =
     (case algoExecutionData s key of
        Some v \<Rightarrow> Inr v
      | None \<Rightarrow> Inl KeyNotFound)"

text \<open>
  \<open>GenerateRandomId(length)\<close> of utilities.hpp draws \<open>rand()\<close> once per character. The
  draws are an input of the embedding: \<open>rnd k\<close> is the value of the \<open>k\<close>-th call of
  \<open>rand()\<close> made during the operation, and \<open>start\<close> is the number of calls made before.
\<close>

definition id_char :: "nat \<Rightarrow> char" where
  "id_char random =
     (if random < 10 then char_of (of_char CHR ''0'' + random)
      else char_of (of_char CHR ''A'' + random - 10))"

definition GenerateRandomId :: "(nat \<Rightarrow> nat) \<Rightarrow> nat \<Rightarrow> nat \<Rightarrow> string" where
  "GenerateRandomId rnd start len = map (\<lambda>j. id_char (rnd (start + j) mod 36)) [0..<len]"

text \<open>
  The locals \<open>side\<close>, \<open>price\<close> and \<open>quantity\<close> of \<open>AlgoExecuteOrder\<close> are declared
  without an initialiser and assigned only inside the spread test. When the test fails
  they are read unassigned; \<open>indet\<close> stands for whatever they then hold.

  The constructor of \<open>ExecutionOrder\<close> takes the two quantities as
  \<open>double\<close> and stores them as \<open>long\<close>, which changes no value below \<open>2^53\<close>.
\<close>

definition AlgoExecuteOrder ::
  "(nat \<Rightarrow> nat) \<Rightarrow> PricingSide \<times> rat \<times> int \<Rightarrow> OrderBook \<Rightarrow> AlgoExecutionService
     \<Rightarrow> AlgoExecutionService \<times> exn option" where
  "AlgoExecuteOrder rnd indet ob s =
     (let prod = product ob;
          key = productId prod;
          oid = ''Algo'' @ GenerateRandomId rnd 0 11;
          poid = ''AlgoParent'' @ GenerateRandomId rnd 11 5
      in case BestBidOffer ob of
           Inl e \<Rightarrow> (s, Some e)
         | Inr bidOffer \<Rightarrow>
            (let bid = bidOrder bidOffer;
                 offer = offerOrder bidOffer;
                 bidPrice = price bid;
                 offerPrice = price offer;
                 bidQuantity = quantity bid;
                 offerQuantity = quantity offer;
                 (sd, pr, qty) =
                   (if offerPrice - bidPrice \<le> 1 / 128 then
                      (if cpp_rem (count s) 2 = 0 then (BID, offerPrice, bidQuantity)
                       else (OFFER, bidPrice, offerQuantity))
                    else indet);
                 vq = qty;
                 hq = 0;
                 child = False;
                 ot = MARKET;
                 eo = mkExecutionOrder prod sd oid ot pr vq hq poid child;
                 algoExecution = mkAlgoExecution eo BROKERTEC
             in (s\<lparr>count := count s + 1,
                   algoExecutionData := (algoExecutionData s)(key \<mapsto> algoExecution),
                   aeNotified := aeNotified s @ map (\<lambda>l. (l, algoExecution)) (aeListeners s)\<rparr>,
                 None)))"


section \<open>The decision rule of the algorithmic execution\<close>


lemma AlgoExecuteOrder_wide:
  assumes "BestBidOffer ob = Inr bo"
    and "\<not> price (offerOrder bo) - price (bidOrder bo) \<le> 1 / 128"
  shows "AlgoExecuteOrder rnd (sd, pr, qty) ob s =
    (let a = mkAlgoExecution
               (mkExecutionOrder (product ob) sd
                  (''Algo'' @ GenerateRandomId rnd 0 11) MARKET pr qty
                  0 (''AlgoParent'' @ GenerateRandomId rnd 11 5) False)
               BROKERTEC
     in (s\<lparr>count := count s + 1,
           algoExecutionData := (algoExecutionData s)(productId (product ob) \<mapsto> a),
           aeNotified := aeNotified s @ map (\<lambda>l. (l, a)) (aeListeners s)\<rparr>, None))"
  using assms by (simp add: AlgoExecuteOrder_def Let_def)

text \<open>
  Claim C1. The claim says that a spread above 1/128 emits nothing. The code tests the
  spread only around the choice of side, price and quantity; the counter, the store and the
  listeners are updated after the test on every call. With best bid 99 and best offer 100
  (spread 1), and one listener registered, the call stores an intent under the product
  identifier and passes it to the listener; its side, price and quantity are the unassigned
  locals.
\<close>

theorem AlgoExecuteOrder_wide_spread_emits:
  "AlgoExecuteOrder rnd (sd, pr, qty)
     (mkOrderBook (mkBond ''9128283H1'' CUSIP ''US2Y'' (175 / 10000) ''2019/11/30'')
        [mkOrder 99 1000000 BID] [mkOrder 100 2000000 OFFER])
     (AlgoExecutionService_AddListener 7 AlgoExecutionService_init)
   = (\<lparr>algoExecutionData =
         [''9128283H1'' \<mapsto>
            mkAlgoExecution
              (mkExecutionOrder (mkBond ''9128283H1'' CUSIP ''US2Y'' (175 / 10000) ''2019/11/30'')
                 sd (''Algo'' @ GenerateRandomId rnd 0 11) MARKET pr qty 0
                 (''AlgoParent'' @ GenerateRandomId rnd 11 5) False)
              BROKERTEC],
       aeListeners = [7],
       count = 1,
       aeNotified =
         [(7, mkAlgoExecution
              (mkExecutionOrder (mkBond ''9128283H1'' CUSIP ''US2Y'' (175 / 10000) ''2019/11/30'')
                 sd (''Algo'' @ GenerateRandomId rnd 0 11) MARKET pr qty 0
                 (''AlgoParent'' @ GenerateRandomId rnd 11 5) False)
              BROKERTEC)]\<rparr>,
      None)"
  by (simp add: AlgoExecuteOrder_def BestBidOffer_def mkOrderBook_def mkOrder_def mkBond_def
      AlgoExecutionService_AddListener_def AlgoExecutionService_init_def Let_def cpp_rem_def)



section \<open>pricingservice.hpp: the service\<close>

record Price =
  prProduct :: Bond
  mid :: rat
  bidOfferSpread :: rat


record PricingService =
  priceData :: "string \<rightharpoonup> Price"
  prListeners :: "listener list"
  prNotified :: "(listener \<times> Price) list"

definition PricingService_init :: PricingService where
  "PricingService_init = \<lparr>priceData = Map.empty, prListeners = [], prNotified = []\<rparr>"


definition PricingService_GetData :: "string \<Rightarrow> PricingService \<Rightarrow> exn + Price" where
  "PricingService_GetData key s =
     (case priceData s key of
        Some v \<Rightarrow> Inr v
      | None \<Rightarrow> Inl KeyNotFound)"



section \<open>tradebookingservice.hpp: the service and its execution listener\<close>

datatype Side = BUY | SELL

record Trade =
  trProduct :: Bond
  tradeId :: string
  trPrice :: rat
  book :: string
  trQuantity :: int
  trSide :: Side

definition mkTrade :: "Bond \<Rightarrow> string \<Rightarrow> rat \<Rightarrow> string \<Rightarrow> int \<Rightarrow> Side \<Rightarrow> Trade" where
  "mkTrade p tid pr bk q sd =
     \<lparr>trProduct = p, tradeId = tid, trPrice = pr, book = bk, trQuantity = q, trSide = sd\<rparr>"

record TradeBookingService =
  tradeData :: "string \<rightharpoonup> Trade"
  tbListeners :: "listener list"
  tbNotified :: "(listener \<times> Trade) list"

definition TradeBookingService_init :: TradeBookingService where
  "TradeBookingService_init = \<lparr>tradeData = Map.empty, tbListeners = [], tbNotified = []\<rparr>"

definition TradeBookingService_AddListener ::
  "listener \<Rightarrow> TradeBookingService \<Rightarrow> TradeBookingService" where
  "TradeBookingService_AddListener l s = s\<lparr>tbListeners := tbListeners s @ [l]\<rparr>"

definition TradeBookingService_GetData :: "string \<Rightarrow> TradeBookingService \<Rightarrow> exn + Trade" where
  "TradeBookingService_GetData key s =
     (case tradeData s key of
        Some v \<Rightarrow> Inr v
      | None \<Rightarrow> Inl KeyNotFound)"

text \<open>Assignment to the entry when the key is present, \<open>insert\<close> when it is not.\<close>

definition TradeBookingService_OnMessage ::
  "Trade \<Rightarrow> TradeBookingService \<Rightarrow> TradeBookingService" where
  "TradeBookingService_OnMessage data s =
     (let key = tradeId data
      in s\<lparr>tradeData := (tradeData s)(key \<mapsto> data),
           tbNotified := tbNotified s @ map (\<lambda>l. (l, data)) (tbListeners s)\<rparr>)"

definition BookTrade :: "Trade \<Rightarrow> TradeBookingService \<Rightarrow> TradeBookingService" where
  "BookTrade trade s = s\<lparr>tbNotified := tbNotified s @ map (\<lambda>l. (l, trade)) (tbListeners s)\<rparr>"

text \<open>
  \<open>TradeBookingServiceListener\<close> holds its own counter, which picks the book.
  \<open>ProcessAdd\<close> acts on the listener's counter and on the service it points to. The
  \<open>switch\<close> has no default: for a remainder other than 0, 1 or 2 the book stays the empty
  string.
\<close>

record TradeBookingServiceListener =
  tblCount :: int

definition TradeBookingServiceListener_init :: TradeBookingServiceListener where
  "TradeBookingServiceListener_init = \<lparr>tblCount = 0\<rparr>"

definition TradeBookingServiceListener_ProcessAdd ::
  "ExecutionOrder \<Rightarrow> TradeBookingServiceListener \<times> TradeBookingService
     \<Rightarrow> TradeBookingServiceListener \<times> TradeBookingService" where
  "TradeBookingServiceListener_ProcessAdd order' st =
     (let l = fst st;
          service = snd st;
          prod = eoProduct order';
          oid = orderId order';
          pr = eoPrice order';
          totalQuantity = visibleQuantity order' + hiddenQuantity order';
          tradeSide = (if eoSide order' = BID then BUY else SELL);
          r = cpp_rem (tblCount l) 3;
          bk = (if r = 0 then ''TRSY1'' else if r = 1 then ''TRSY2''
                else if r = 2 then ''TRSY3'' else []);
          trade = mkTrade prod oid pr bk totalQuantity tradeSide
      in (l\<lparr>tblCount := tblCount l + 1\<rparr>, BookTrade trade service))"


section \<open>inquiryservice.hpp: the store and its lookup\<close>

datatype InquiryState = RECEIVED | QUOTED | DONE | REJECTED | CUSTOMER_REJECTED

record Inquiry =
  inquiryId :: string
  inqProduct :: Bond
  inqSide :: Side
  inqQuantity :: int
  inqPrice :: rat
  inqState :: InquiryState

record InquiryService =
  inquiryData :: "string \<rightharpoonup> Inquiry"
  inqListeners :: "listener list"
  inqNotified :: "(listener \<times> Inquiry) list"

definition InquiryService_init :: InquiryService where
  "InquiryService_init = \<lparr>inquiryData = Map.empty, inqListeners = [], inqNotified = []\<rparr>"

definition InquiryService_GetData :: "string \<Rightarrow> InquiryService \<Rightarrow> exn + Inquiry" where
  "InquiryService_GetData key s =
     (case inquiryData s key of
        Some v \<Rightarrow> Inr v
      | None \<Rightarrow> Inl KeyNotFound)"


section \<open>marketdataservice.hpp: the service\<close>

record MarketDataService =
  orderBookMap :: "string \<rightharpoonup> OrderBook"
  mdListeners :: "listener list"
  bookDepth :: nat
  mdNotified :: "(listener \<times> OrderBook) list"

definition MarketDataService_init :: MarketDataService where
  "MarketDataService_init =
     \<lparr>orderBookMap = Map.empty, mdListeners = [], bookDepth = 5, mdNotified = []\<rparr>"


text \<open>
  \<open>GetData\<close> returns a reference into the map. For a key that is absent it first inserts
  an order book with empty stacks, after \<open>QueryProduct\<close> has found the product; an unknown
  identifier makes \<open>QueryProduct\<close> throw before anything is inserted.
\<close>

definition MarketDataService_GetData ::
  "string \<Rightarrow> MarketDataService \<Rightarrow> (exn + OrderBook) \<times> MarketDataService" where
  "MarketDataService_GetData key s =
     (case orderBookMap s key of
        Some ob \<Rightarrow> (Inr ob, s)
      | None \<Rightarrow>
          (case QueryProduct key of
             Inl e \<Rightarrow> (Inl e, s)
           | Inr p \<Rightarrow>
               (let ob = mkOrderBook p [] []
                in (Inr ob, s\<lparr>orderBookMap := (orderBookMap s)(key \<mapsto> ob)\<rparr>))))"


section \<open>Lookup of an absent key\<close>

text \<open>
  Claim C5, as stated, is false for the market data service. On a service that holds no
  order book, \<open>GetData\<close> for the known product identifier \<open>9128283H1\<close> throws nothing: it
  returns an order book with empty stacks and leaves that book stored under the key.
\<close>

theorem MarketDataService_GetData_absent_counterexample:
  "orderBookMap MarketDataService_init ''9128283H1'' = None
   \<and> fst (MarketDataService_GetData ''9128283H1'' MarketDataService_init)
       = Inr (mkOrderBook (mkBond ''9128283H1'' CUSIP ''US2Y'' (175 / 10000) ''2019/11/30'') [] [])
   \<and> orderBookMap (snd (MarketDataService_GetData ''9128283H1'' MarketDataService_init))
         ''9128283H1''
       = Some (mkOrderBook (mkBond ''9128283H1'' CUSIP ''US2Y'' (175 / 10000) ''2019/11/30'') [] [])"
  by (simp add: MarketDataService_GetData_def MarketDataService_init_def QueryProduct_def
      productConstructors_def Let_def)

text \<open>
  Claim C5, amended. For the pricing, trade booking, algorithmic execution and inquiry
  services, \<open>GetData\<close> on a key absent from the store throws \<open>runtime_error("Key not found")\<close>; it
  has no access to the store other than reading it. For the market data service, \<open>GetData\<close> on
  an absent key throws \<open>invalid_argument\<close> and stores nothing when the key is not a known
  product identifier, and otherwise inserts an order book with empty stacks for that product
  under the key and returns it.
\<close>

theorem GetData_absent_key:
  "(priceData ps key = None \<longrightarrow> PricingService_GetData key ps = Inl KeyNotFound)
   \<and> (tradeData ts key = None \<longrightarrow> TradeBookingService_GetData key ts = Inl KeyNotFound)
   \<and> (algoExecutionData as key = None \<longrightarrow> AlgoExecutionService_GetData key as = Inl KeyNotFound)
   \<and> (inquiryData qs key = None \<longrightarrow> InquiryService_GetData key qs = Inl KeyNotFound)
   \<and> (orderBookMap ms key = None \<longrightarrow>
        MarketDataService_GetData key ms =
          (case QueryProduct key of
             Inl e \<Rightarrow> (Inl InvalidArgument, ms)
           | Inr p \<Rightarrow> (Inr (mkOrderBook p [] []),
                       ms\<lparr>orderBookMap := (orderBookMap ms)(key \<mapsto> mkOrderBook p [] [])\<rparr>)))"
  by (auto simp: PricingService_GetData_def TradeBookingService_GetData_def
      AlgoExecutionService_GetData_def InquiryService_GetData_def MarketDataService_GetData_def
      QueryProduct_def Let_def split: option.splits)

theorem GetData_absent_key_witness:
  "priceData PricingService_init ''912828M80'' = None
   \<and> PricingService_GetData ''912828M80'' PricingService_init = Inl KeyNotFound
   \<and> tradeData TradeBookingService_init ''912828M80'' = None
   \<and> TradeBookingService_GetData ''912828M80'' TradeBookingService_init = Inl KeyNotFound
   \<and> algoExecutionData AlgoExecutionService_init ''912828M80'' = None
   \<and> AlgoExecutionService_GetData ''912828M80'' AlgoExecutionService_init = Inl KeyNotFound
   \<and> inquiryData InquiryService_init ''912828M80'' = None
   \<and> InquiryService_GetData ''912828M80'' InquiryService_init = Inl KeyNotFound
   \<and> orderBookMap MarketDataService_init ''912828M80'' = None
   \<and> MarketDataService_GetData ''912828M80'' MarketDataService_init =
       (Inr (mkOrderBook (mkBond ''912828M80'' CUSIP ''US5Y'' (2 / 100) ''2022/11/30'') [] []),
        MarketDataService_init
          \<lparr>orderBookMap :=
             [''912828M80'' \<mapsto>
                mkOrderBook (mkBond ''912828M80'' CUSIP ''US5Y'' (2 / 100) ''2022/11/30'') [] []]\<rparr>)"
proof -
  have q: "QueryProduct ''912828M80''
             = Inr (mkBond ''912828M80'' CUSIP ''US5Y'' (2 / 100) ''2022/11/30'')"
    by (simp add: QueryProduct_def productConstructors_def)
  have e: "priceData PricingService_init ''912828M80'' = None"
    "tradeData TradeBookingService_init ''912828M80'' = None"
    "algoExecutionData AlgoExecutionService_init ''912828M80'' = None"
    "inquiryData InquiryService_init ''912828M80'' = None"
    "orderBookMap MarketDataService_init ''912828M80'' = None"
    by (simp_all add: PricingService_init_def TradeBookingService_init_def
        AlgoExecutionService_init_def InquiryService_init_def MarketDataService_init_def)
  from GetData_absent_key [of PricingService_init "''912828M80''" TradeBookingService_init
      AlgoExecutionService_init InquiryService_init MarketDataService_init]
  show ?thesis
    using e by (simp add: q MarketDataService_init_def)
qed


section \<open>Booking a trade\<close>

lemma BookTrade_tradeData: "tradeData (BookTrade t s) = tradeData s"
  by (simp add: BookTrade_def)

lemma ProcessAdd_tradeData:
  "tradeData (snd (TradeBookingServiceListener_ProcessAdd ord st)) = tradeData (snd st)"
  by (simp add: TradeBookingServiceListener_ProcessAdd_def Let_def BookTrade_def)

lemma fold_ProcessAdd_tradeData:
  "tradeData (snd (fold TradeBookingServiceListener_ProcessAdd ords st)) = tradeData (snd st)"
  by (induction ords arbitrary: st) (simp_all add: ProcessAdd_tradeData)

lemma fold_AddListener_tradeData:
  "tradeData (fold TradeBookingService_AddListener ls s) = tradeData s"
  by (induction ls arbitrary: s) (simp_all add: TradeBookingService_AddListener_def)

text \<open>
  Claim C10. \<open>BookTrade\<close> passes the trade to every registered listener, in registration
  order, and changes neither the store nor the listeners; \<open>OnMessage\<close> is the operation that
  writes the store. Hence any sequence of \<open>ProcessAdd\<close> calls of the execution listener leaves
  the store as it was: \<open>GetData\<close> answers every key as before, and on a service whose store
  started empty it fails for every key, the identifiers of the booked trades included.
\<close>

theorem BookTrade_store_unchanged:
  "tradeData (BookTrade t s) = tradeData s
   \<and> tbListeners (BookTrade t s) = tbListeners s
   \<and> tbNotified (BookTrade t s) = tbNotified s @ map (\<lambda>l. (l, t)) (tbListeners s)
   \<and> tradeData (TradeBookingService_OnMessage t s) = (tradeData s)(tradeId t \<mapsto> t)
   \<and> TradeBookingService_GetData (tradeId t) (TradeBookingService_OnMessage t s) = Inr t
   \<and> TradeBookingService_GetData key
        (snd (fold TradeBookingServiceListener_ProcessAdd ords (l, s)))
       = TradeBookingService_GetData key s
   \<and> TradeBookingService_GetData key
        (snd (fold TradeBookingServiceListener_ProcessAdd ords
           (l, fold TradeBookingService_AddListener ls TradeBookingService_init)))
       = Inl KeyNotFound"
proof -
  have "TradeBookingService_GetData key
          (snd (fold TradeBookingServiceListener_ProcessAdd ords (l, s)))
        = TradeBookingService_GetData key s"
    by (simp add: TradeBookingService_GetData_def fold_ProcessAdd_tradeData)
  moreover have "TradeBookingService_GetData key
        (snd (fold TradeBookingServiceListener_ProcessAdd ords
           (l, fold TradeBookingService_AddListener ls TradeBookingService_init)))
       = Inl KeyNotFound"
    by (simp add: TradeBookingService_GetData_def fold_ProcessAdd_tradeData
        fold_AddListener_tradeData TradeBookingService_init_def)
  ultimately show ?thesis
    by (simp add: BookTrade_def TradeBookingService_OnMessage_def Let_def
        TradeBookingService_GetData_def)
qed

section \<open>marketdataservice.hpp: depth aggregation\<close>




text \<open>The total quantity a stack holds at a price, and the price levels of a stack.\<close>

definition qty_at :: "rat \<Rightarrow> Order list \<Rightarrow> int" where
  "qty_at p stack = sum_list (map quantity (filter (\<lambda>x. price x = p) stack))"



section \<open>Properties of depth aggregation\<close>




lemma qty_at_Nil [simp]: "qty_at p [] = 0"
  by (simp add: qty_at_def)

lemma qty_at_Cons [simp]:
  "qty_at p (x # xs) = (if price x = p then quantity x + qty_at p xs else qty_at p xs)"
  by (simp add: qty_at_def)












section \<open>Strings and numbers of the standard library\<close>

text \<open>
  \<open>isspace\<close> and \<open>isdigit\<close> in the C locale, the value of a decimal digit string, and
  \<open>std::to_string\<close> on an integer.
\<close>

definition isspace :: "char \<Rightarrow> bool" where
  "isspace c = (c = CHR '' '' \<or> (9 :: nat) \<le> of_char c \<and> of_char c \<le> (13 :: nat))"

definition isdigit :: "char \<Rightarrow> bool" where
  "isdigit c = ((48 :: nat) \<le> of_char c \<and> of_char c \<le> (57 :: nat))"

definition digit_val :: "char \<Rightarrow> nat" where
  "digit_val c = of_char c - 48"

definition digit_char :: "nat \<Rightarrow> char" where
  "digit_char d = char_of (48 + d)"

definition dec :: "string \<Rightarrow> nat" where
  "dec ds = foldl (\<lambda>acc c. 10 * acc + digit_val c) 0 ds"

fun digits_of :: "nat \<Rightarrow> string" where
  "digits_of n = (if n < 10 then [digit_char n] else digits_of (n div 10) @ [digit_char (n mod 10)])"

declare digits_of.simps [simp del]

definition to_string :: "int \<Rightarrow> string" where
  "to_string i = (if i < 0 then CHR ''-'' # digits_of (nat (- i)) else digits_of (nat i))"

text \<open>
  \<open>std::stol\<close> in base 10: leading white space is skipped, one sign is accepted, the
  longest run of digits is converted and whatever follows is ignored. No digit:
  \<open>invalid_argument\<close>; a value that does not fit a 64-bit \<open>long\<close>: \<open>out_of_range\<close>.
\<close>

definition split_sign :: "string \<Rightarrow> bool \<times> string" where
  "split_sign s =
     (case s of
        [] \<Rightarrow> (False, [])
      | c # r \<Rightarrow> if c = CHR ''-'' then (True, r) else if c = CHR ''+'' then (False, r) else (False, s))"


text \<open>
  \<open>std::stod\<close>, for an optionally signed decimal integer: leading white space is skipped,
  one sign is accepted, the run of digits is converted and what follows is ignored; no
  conversion is \<open>invalid_argument\<close>. Where the text goes on with a character that lets
  \<open>strtod\<close> read more or read another form (a decimal point, an exponent, a hexadecimal
  prefix, \<open>inf\<close>, \<open>nan\<close>), the result is \<open>Unmodelled\<close>: the embedding says nothing
  about such input. The same holds for a run of digits with a value above \<open>2^53\<close>, which a
  \<open>double\<close> need not hold exactly and for which \<open>stod\<close> throws \<open>out_of_range\<close> once it
  exceeds the range of \<open>double\<close>.
\<close>

definition stod :: "string \<Rightarrow> exn + rat" where
  "stod s =
     (let (neg, s2) = split_sign (dropWhile isspace s);
          ds = takeWhile isdigit s2;
          rest = dropWhile isdigit s2
      in if rest \<noteq> [] \<and> hd rest \<in> set ''.eExXiInN'' then Inl Unmodelled
         else if ds = [] then Inl InvalidArgument
         else if 2 ^ 53 < int (dec ds) then Inl Unmodelled
         else Inr (if neg then - of_nat (dec ds) else of_nat (dec ds)))"


section \<open>utilities.hpp: the price notation\<close>

text \<open>\<open>s.find(c)\<close>: the index of the first occurrence, \<open>None\<close> for \<open>npos\<close>.\<close>

definition find_char :: "char \<Rightarrow> string \<Rightarrow> nat option" where
  "find_char c s =
     (let k = length (takeWhile (\<lambda>x. x \<noteq> c) s) in if k = length s then None else Some k)"

definition Frac2Price :: "string \<Rightarrow> exn + rat" where
  "Frac2Price PriceFrac =
     (case find_char CHR ''-'' PriceFrac of
        None \<Rightarrow> Inl InvalidArgument
      | Some posDash \<Rightarrow>
         (case stod (take posDash PriceFrac) of
            Inl e \<Rightarrow> Inl e
          | Inr price1 \<Rightarrow>
             (let fractionalPart = drop (posDash + 1) PriceFrac
              in if length fractionalPart \<noteq> 3 then Inl InvalidArgument
                 else
                  (let fractionalPart' =
                         (if fractionalPart ! 2 = CHR ''+'' then fractionalPart[2 := CHR ''4'']
                          else fractionalPart)
                   in case stod (take 2 fractionalPart') of
                        Inl e \<Rightarrow> Inl e
                      | Inr n32 \<Rightarrow>
                         (case stod (take 1 (drop 2 fractionalPart')) of
                            Inl e \<Rightarrow> Inl e
                          | Inr n256 \<Rightarrow> Inr (price1 + n32 / 32 + n256 / 256))))))"

text \<open>
  \<open>static_cast<int>\<close> of a \<open>double\<close> truncates towards zero and is undefined when the
  truncated value does not fit a 32-bit \<open>int\<close>.
\<close>

definition cast_int :: "rat \<Rightarrow> exn + int" where
  "cast_int x =
     (let t = (if 0 \<le> x then \<lfloor>x\<rfloor> else \<lceil>x\<rceil>)
      in if - (2 ^ 31) \<le> t \<and> t < 2 ^ 31 then Inr t else Inl UndefinedBehaviour)"

definition Price2Frac :: "rat \<Rightarrow> exn + string" where
  "Price2Frac price' =
     (case cast_int (of_int \<lfloor>price'\<rfloor>) of
        Inl e \<Rightarrow> Inl e
      | Inr intpart \<Rightarrow>
         (let fracpart = price' - of_int intpart
          in case cast_int (fracpart * 32) of
               Inl e \<Rightarrow> Inl e
             | Inr xy \<Rightarrow>
                (case cast_int (fracpart * 256) of
                   Inl e \<Rightarrow> Inl e
                 | Inr z256 \<Rightarrow>
                    (let z = cpp_rem z256 8;
                         fractionalString = to_string intpart @ ''-'';
                         fractionalString' =
                           fractionalString @ (if xy < 10 then ''0'' else []) @ to_string xy
                     in Inr (fractionalString' @ (if z = 4 then ''+'' else to_string z))))))"

section \<open>Decimal digits\<close>

lemma digit_val_char [simp]: "d < 10 \<Longrightarrow> digit_val (digit_char d) = d"
  by (simp add: digit_val_def digit_char_def)

lemma digit_char_val [simp]: "isdigit c \<Longrightarrow> digit_char (digit_val c) = c"
  by (simp add: digit_val_def digit_char_def isdigit_def)

lemma digit_val_less: "isdigit c \<Longrightarrow> digit_val c < 10"
  by (auto simp: digit_val_def isdigit_def)

lemma isdigit_digit_char [simp]: "d < 10 \<Longrightarrow> isdigit (digit_char d)"
  by (simp add: isdigit_def digit_char_def)

lemma digit_char_nonzero: "0 < d \<Longrightarrow> d < 10 \<Longrightarrow> digit_char d \<noteq> CHR ''0''"
proof
  assume d: "0 < d" "d < 10" and eq: "digit_char d = CHR ''0''"
  have z: "digit_val CHR ''0'' = 0"
    by (simp add: digit_val_def)
  have "digit_val (digit_char d) = d"
    using d(2) by (rule digit_val_char)
  with eq z d(1) show False
    by simp
qed

lemma digit_val_nonzero: "isdigit c \<Longrightarrow> c \<noteq> CHR ''0'' \<Longrightarrow> digit_val c \<noteq> 0"
proof
  assume c: "isdigit c" "c \<noteq> CHR ''0''" and eq: "digit_val c = 0"
  have "char_of (of_char CHR ''0'' :: nat) = CHR ''0''"
    by (rule char_of_char)
  then have z: "digit_char 0 = CHR ''0''"
    by (simp add: digit_char_def)
  have "digit_char (digit_val c) = c"
    using c(1) by (rule digit_char_val)
  with eq z c(2) show False
    by simp
qed

lemma isdigit_not_space: "isdigit c \<Longrightarrow> \<not> isspace c"
  by (auto simp: isdigit_def isspace_def)

lemma isdigit_not_sign: "isdigit c \<Longrightarrow> c \<noteq> CHR ''-'' \<and> c \<noteq> CHR ''+''"
  by (auto simp: isdigit_def)

lemma dec_Nil [simp]: "dec [] = 0"
  by (simp add: dec_def)

lemma dec_snoc [simp]: "dec (ds @ [d]) = 10 * dec ds + digit_val d"
  by (simp add: dec_def)

lemma dec_single [simp]: "dec [d] = digit_val d"
  by (simp add: dec_def)

lemma dec_pair [simp]: "dec [c, d] = 10 * digit_val c + digit_val d"
  by (simp add: dec_def)

lemma digits_of_small: "n < 10 \<Longrightarrow> digits_of n = [digit_char n]"
  by (simp add: digits_of.simps)

lemma digits_of_large:
  "\<not> n < 10 \<Longrightarrow> digits_of n = digits_of (n div 10) @ [digit_char (n mod 10)]"
  by (subst digits_of.simps) simp

lemma digits_of_nonempty: "digits_of n \<noteq> []"
  by (cases "n < 10") (simp_all add: digits_of_small digits_of_large)

lemma digits_of_isdigit: "list_all isdigit (digits_of n)"
proof (induction n rule: digits_of.induct)
  case (1 n)
  show ?case
  proof (cases "n < 10")
    case True
    then show ?thesis by (simp add: digits_of_small)
  next
    case False
    with "1.IH" show ?thesis by (simp add: digits_of_large)
  qed
qed

lemma dec_digits_of: "dec (digits_of n) = n"
proof (induction n rule: digits_of.induct)
  case (1 n)
  show ?case
  proof (cases "n < 10")
    case True
    then show ?thesis by (simp add: digits_of_small)
  next
    case False
    with "1.IH" show ?thesis by (simp add: digits_of_large)
  qed
qed

lemma hd_digits_of: "0 < n \<Longrightarrow> hd (digits_of n) \<noteq> CHR ''0''"
proof (induction n rule: digits_of.induct)
  case (1 n)
  show ?case
  proof (cases "n < 10")
    case True
    with "1.prems" show ?thesis
      by (simp add: digits_of_small digit_char_nonzero)
  next
    case False
    then have "0 < n div 10" by simp
    with "1.IH" False show ?thesis
      by (simp add: digits_of_large digits_of_nonempty)
  qed
qed

text \<open>A digit string without a leading zero is the decimal form of its value.\<close>

definition canonical :: "string \<Rightarrow> bool" where
  "canonical ds = (ds \<noteq> [] \<and> list_all isdigit ds \<and> (length ds = 1 \<or> hd ds \<noteq> CHR ''0''))"

lemma dec_pos: "ds \<noteq> [] \<Longrightarrow> list_all isdigit ds \<Longrightarrow> hd ds \<noteq> CHR ''0'' \<Longrightarrow> 0 < dec ds"
proof (induction ds rule: rev_induct)
  case Nil
  then show ?case by simp
next
  case (snoc d ds)
  show ?case
  proof (cases "ds = []")
    case True
    with snoc.prems have "isdigit d" and "d \<noteq> CHR ''0''" by simp_all
    then have "digit_val d \<noteq> 0"
      by (rule digit_val_nonzero)
    with True show ?thesis by simp
  next
    case False
    with snoc have "0 < dec ds" by simp
    then show ?thesis by simp
  qed
qed

lemma digits_of_dec: "canonical ds \<Longrightarrow> digits_of (dec ds) = ds"
proof (induction ds rule: rev_induct)
  case Nil
  then show ?case by (simp add: canonical_def)
next
  case (snoc d ds)
  from snoc.prems have d: "isdigit d" and all: "list_all isdigit ds"
    by (simp_all add: canonical_def)
  show ?case
  proof (cases "ds = []")
    case True
    with d show ?thesis
      by (simp add: digits_of_small digit_val_less)
  next
    case False
    with snoc.prems have h: "hd ds \<noteq> CHR ''0''"
      by (simp add: canonical_def)
    with False all have c: "canonical ds"
      by (simp add: canonical_def)
    have "0 < dec ds"
      using False all h by (rule dec_pos)
    then have "\<not> 10 * dec ds + digit_val d < 10" by simp
    moreover have "(10 * dec ds + digit_val d) div 10 = dec ds"
      using digit_val_less [OF d] by simp
    moreover have "(10 * dec ds + digit_val d) mod 10 = digit_val d"
      using digit_val_less [OF d] by simp
    ultimately show ?thesis
      using snoc.IH [OF c] d by (simp add: digits_of_large)
  qed
qed

lemma canonical_digits_of: "canonical (digits_of n)"
proof (cases "n < 10")
  case True
  then show ?thesis
    by (simp add: canonical_def digits_of_small)
next
  case False
  then have "0 < n" by simp
  then show ?thesis
    by (simp add: canonical_def digits_of_nonempty digits_of_isdigit hd_digits_of)
qed


section \<open>Reading numbers\<close>

lemma stod_digits:
  assumes "ds \<noteq> []" and "list_all isdigit ds" and "dec ds \<le> 2 ^ 53"
  shows "stod ds = Inr (of_nat (dec ds))"
proof -
  from assms obtain c r where ds: "ds = c # r" and c: "isdigit c"
    by (cases ds) auto
  have 1: "dropWhile isspace ds = ds"
    unfolding ds using isdigit_not_space [OF c] by simp
  have 2: "split_sign ds = (False, ds)"
    unfolding ds using isdigit_not_sign [OF c] by (simp add: split_sign_def)
  have 3: "takeWhile isdigit ds = ds" and 4: "dropWhile isdigit ds = []"
    using assms(2) by (simp_all add: list_all_iff)
  have "int (dec ds) \<le> int (2 ^ 53)"
    using assms(3) by (simp only: of_nat_le_iff)
  then have 5: "\<not> 2 ^ 53 < int (dec ds)"
    by simp
  show ?thesis
    unfolding stod_def 1 2 Let_def prod.case 3 4 using assms(1) 5 by simp
qed

lemma find_char_append:
  assumes "c \<notin> set xs"
  shows "find_char c (xs @ c # ys) = Some (length xs)"
proof -
  have "takeWhile (\<lambda>x. x \<noteq> c) (xs @ c # ys) = xs"
    using assms by (induction xs) auto
  then show ?thesis
    by (simp add: find_char_def Let_def)
qed

lemma dash_not_digit: "list_all isdigit ds \<Longrightarrow> CHR ''-'' \<notin> set ds"
  using isdigit_not_sign by (auto simp: list_all_iff)

lemma find_char_Some:
  assumes "find_char c s = Some k"
  shows "s = take k s @ c # drop (Suc k) s \<and> c \<notin> set (take k s)"
proof -
  let ?t = "takeWhile (\<lambda>x. x \<noteq> c) s"
  from assms have k: "k = length ?t" and lt: "length ?t < length s"
    using length_takeWhile_le [of "\<lambda>x. x \<noteq> c" s]
    by (auto simp: find_char_def Let_def split: if_splits)
  have t: "take k s = ?t"
    unfolding k by (metis append_eq_conv_conj takeWhile_dropWhile_id)
  have d: "drop k s = dropWhile (\<lambda>x. x \<noteq> c) s"
    unfolding k by (metis append_eq_conv_conj takeWhile_dropWhile_id)
  from lt have "dropWhile (\<lambda>x. x \<noteq> c) s \<noteq> []"
    by (metis append_Nil2 less_irrefl takeWhile_dropWhile_id)
  then have "hd (dropWhile (\<lambda>x. x \<noteq> c) s) = c"
    using hd_dropWhile [of "\<lambda>x. x \<noteq> c" s] by simp
  with \<open>dropWhile (\<lambda>x. x \<noteq> c) s \<noteq> []\<close> have "drop k s = c # drop (Suc k) s"
    unfolding d [symmetric]
    by (metis drop_Suc drop_eq_Nil2 hd_drop_conv_nth Cons_nth_drop_Suc not_le_imp_less tl_drop)
  then have "s = take k s @ c # drop (Suc k) s"
    by (metis append_take_drop_id)
  moreover have "c \<notin> set (take k s)"
    unfolding t by (auto dest: set_takeWhileD)
  ultimately show ?thesis by blast
qed


section \<open>The price notation on well-formed input\<close>

text \<open>The 256ths character: \<open>+\<close> is read as 4.\<close>

definition z_val :: "char \<Rightarrow> nat" where
  "z_val z = (if z = CHR ''+'' then 4 else digit_val z)"

lemma Frac2Price_digits:
  assumes ip: "ip \<noteq> []" "list_all isdigit ip"
    and d: "isdigit d1" "isdigit d2"
    and z: "isdigit z \<or> z = CHR ''+''"
    and b: "dec ip \<le> 2 ^ 53"
  shows "Frac2Price (ip @ CHR ''-'' # [d1, d2, z])
           = Inr (of_nat (dec ip) + of_nat (dec [d1, d2]) / 32 + of_nat (z_val z) / 256)"
proof -
  have f: "find_char CHR ''-'' (ip @ CHR ''-'' # [d1, d2, z]) = Some (length ip)"
    using dash_not_digit [OF ip(2)] by (rule find_char_append)
  have s1: "stod ip = Inr (of_nat (dec ip))"
    using ip b by (rule stod_digits)
  have s2: "stod [d1, d2] = Inr (of_nat (dec [d1, d2]))"
    using d digit_val_less [OF d(1)] digit_val_less [OF d(2)]
    by (intro stod_digits) simp_all
  have four: "isdigit CHR ''4''" and v4: "digit_val CHR ''4'' = 4"
    by (simp_all add: isdigit_def digit_val_def)
  have s3: "stod [if z = CHR ''+'' then CHR ''4'' else z] = Inr (of_nat (z_val z))"
  proof (cases "z = CHR ''+''")
    case True
    then show ?thesis
      using stod_digits [of "[CHR ''4'']"] four by (simp add: z_val_def v4)
  next
    case False
    with z have "isdigit z" by simp
    then show ?thesis
      using False stod_digits [of "[z]"] digit_val_less [of z] by (simp add: z_val_def)
  qed
  show ?thesis
    unfolding Frac2Price_def f
    by (cases "z = CHR ''+''") (use s1 s2 s3 in \<open>simp_all add: Let_def\<close>)
qed

lemma two_digits:
  assumes "x < 100"
  shows "(if int x < 10 then ''0'' else []) @ to_string (int x)
           = [digit_char (x div 10), digit_char (x mod 10)]"
proof (cases "x < 10")
  case True
  have "char_of (of_char CHR ''0'' :: nat) = CHR ''0''"
    by (rule char_of_char)
  then have "digit_char 0 = CHR ''0''"
    by (simp add: digit_char_def)
  with True show ?thesis
    by (simp add: to_string_def digits_of_small)
next
  case False
  with assms have "x div 10 < 10" by simp
  with False show ?thesis
    by (simp add: to_string_def digits_of_large digits_of_small)
qed

lemma Price2Frac_grid:
  assumes I: "I < 2 ^ 31" and x: "x < 32" and z: "z < 8"
  shows "Price2Frac (of_nat I + of_nat x / 32 + of_nat z / 256)
           = Inr (digits_of I @ CHR ''-'' #
                  [digit_char (x div 10), digit_char (x mod 10),
                   if z = 4 then CHR ''+'' else digit_char z])"
proof -
  let ?p = "of_nat I + of_nat x / 32 + of_nat z / 256 :: rat"
  let ?f = "of_nat x / 32 + of_nat z / 256 :: rat"
  have f0: "0 \<le> ?f" by simp
  have "of_nat x \<le> (31 :: rat)" and "of_nat z \<le> (7 :: rat)"
    using x z by (simp_all add: of_nat_le_iff [of x 31, where ?'a = rat, simplified]
        of_nat_le_iff [of z 7, where ?'a = rat, simplified])
  then have f1: "?f < 1" by simp
  have fl: "\<lfloor>?p\<rfloor> = int I"
    using f0 f1 by (intro floor_unique) (simp_all add: add.assoc)
  have c1: "cast_int (of_int \<lfloor>?p\<rfloor>) = Inr (int I)"
    using I unfolding fl by (simp add: cast_int_def)
  have fp: "?p - of_int (int I) = ?f" by simp
  have "\<lfloor>?f * 32\<rfloor> = int x"
    using \<open>of_nat z \<le> (7 :: rat)\<close> by (intro floor_unique) simp_all
  then have c2: "cast_int (?f * 32) = Inr (int x)"
    using x by (simp add: cast_int_def)
  have "?f * 256 = of_int (int (8 * x + z))" by simp
  then have "\<lfloor>?f * 256\<rfloor> = int (8 * x + z)"
    by (simp only: floor_of_int)
  then have c3: "cast_int (?f * 256) = Inr (int (8 * x + z))"
    using x z by (simp add: cast_int_def)
  have r: "cpp_rem (int (8 * x + z)) 8 = int z"
    using z by (simp add: cpp_rem_def sgn_if)
  have ts: "to_string (int I) = digits_of I"
    by (simp add: to_string_def)
  have zs: "(if int z = 4 then ''+'' else to_string (int z))
              = [if z = 4 then CHR ''+'' else digit_char z]"
    using z by (simp add: to_string_def digits_of_small)
  have xs: "(if int x < 10 then ''0'' else []) @ to_string (int x)
              = [digit_char (x div 10), digit_char (x mod 10)]"
    using x by (intro two_digits) simp
  show ?thesis
    unfolding Price2Frac_def c1 sum.case fp Let_def c2 c3 r ts zs
    using xs by simp
qed

text \<open>
  The strings the encoder produces for prices from 0 up to \<open>2^31\<close>: a decimal integer part
  without sign or leading zero and below \<open>2^31\<close>, a dash, two digits for the 32nds with a
  value below 32, and a last character that is a digit from 0 to 7 other than 4, or \<open>+\<close>.
\<close>

definition valid_frac :: "string \<Rightarrow> bool" where
  "valid_frac s =
     (case find_char CHR ''-'' s of
        None \<Rightarrow> False
      | Some k \<Rightarrow>
          canonical (take k s) \<and> dec (take k s) < 2 ^ 31
          \<and> (let fp = drop (k + 1) s
             in length fp = 3 \<and> isdigit (fp ! 0) \<and> isdigit (fp ! 1)
                \<and> dec (take 2 fp) < 32 \<and> fp ! 2 \<in> set ''0123567+''))"

text \<open>A price on the 1/256 grid from 0 up to \<open>2^31\<close>.\<close>

definition on_grid :: "rat \<Rightarrow> bool" where
  "on_grid p = (0 \<le> p \<and> p < 2 ^ 31 \<and> of_int \<lfloor>p * 256\<rfloor> = p * 256)"

lemma grid_bound:
  assumes "I < 2 ^ 31" and "x < 32" and "z < 8"
  shows "(of_nat I + of_nat x / 32 + of_nat z / 256 :: rat) < 2 ^ 31"
proof -
  have "I \<le> 2147483647" and "x \<le> 31" and "z \<le> 7"
    using assms by simp_all
  then have "(of_nat I :: rat) \<le> of_nat 2147483647" and "(of_nat x :: rat) \<le> of_nat 31"
    and "(of_nat z :: rat) \<le> of_nat 7"
    by (simp_all only: of_nat_le_iff)
  then have "(of_nat I :: rat) \<le> 2147483647" and "(of_nat x :: rat) \<le> 31"
    and "(of_nat z :: rat) \<le> 7"
    by simp_all
  then have "(of_nat I + of_nat x / 32 + of_nat z / 256 :: rat) < 2147483648"
    by linarith
  then show ?thesis by simp
qed

lemma z_char_cases:
  assumes "z \<in> set ''0123567+''"
  shows "(isdigit z \<or> z = CHR ''+'') \<and> z_val z < 8
         \<and> (if z_val z = 4 then CHR ''+'' else digit_char (z_val z)) = z"
proof -
  have dc: "digit_char (digit_val c) = c" if "isdigit c" for c
    using that by (rule digit_char_val)
  from assms consider "z = CHR ''0''" | "z = CHR ''1''" | "z = CHR ''2''" | "z = CHR ''3''"
    | "z = CHR ''5''" | "z = CHR ''6''" | "z = CHR ''7''" | "z = CHR ''+''"
    by auto
  then show ?thesis
  proof cases
    case 8
    then show ?thesis by (simp add: z_val_def)
  qed (use dc [of z] in \<open>simp_all add: z_val_def isdigit_def digit_val_def\<close>)
qed

lemma z_digit_cases:
  assumes "z < 8"
  shows "z_val (if z = 4 then CHR ''+'' else digit_char z) = z
       \<and> (isdigit (if z = 4 then CHR ''+'' else digit_char z)
          \<or> (if z = 4 then CHR ''+'' else digit_char z) = CHR ''+'')
       \<and> (if z = 4 then CHR ''+'' else digit_char z) \<in> set ''0123567+''"
proof -
  have e: "digit_char 0 = CHR ''0''" "digit_char (Suc 0) = CHR ''1''"
    "digit_char 2 = CHR ''2''" "digit_char 3 = CHR ''3''" "digit_char 5 = CHR ''5''"
    "digit_char 6 = CHR ''6''" "digit_char 7 = CHR ''7''"
    by code_simp+
  from assms consider "z = 0" | "z = 1" | "z = 2" | "z = 3" | "z = 4" | "z = 5" | "z = 6"
    | "z = 7"
    by linarith
  then show ?thesis
    by cases (simp_all add: e z_val_def isdigit_def digit_val_def)
qed

lemma decode_encode_string:
  assumes "valid_frac s"
  shows "\<exists>p. Frac2Price s = Inr p \<and> Price2Frac p = Inr s \<and> on_grid p"
proof -
  from assms obtain k where k: "find_char CHR ''-'' s = Some k"
    by (auto simp: valid_frac_def split: option.splits)
  define ip where "ip = take k s"
  define fp where "fp = drop (Suc k) s"
  from assms k have c: "canonical ip" and b: "dec ip < 2 ^ 31"
    and l: "length fp = 3" and d: "isdigit (fp ! 0)" "isdigit (fp ! 1)"
    and x: "dec (take 2 fp) < 32" and z: "fp ! 2 \<in> set ''0123567+''"
    by (simp_all add: valid_frac_def ip_def fp_def Let_def)
  from l obtain d1 d2 z' where fp: "fp = [d1, d2, z']"
    by (cases fp; cases "tl fp"; cases "tl (tl fp)") auto
  have s: "s = ip @ CHR ''-'' # [d1, d2, z']"
    using find_char_Some [OF k] by (simp add: ip_def fp_def [symmetric] fp)
  from d have d1: "isdigit d1" and d2: "isdigit d2"
    by (simp_all add: fp)
  from x have x': "dec [d1, d2] < 32"
    by (simp add: fp)
  from z have zc: "(isdigit z' \<or> z' = CHR ''+'') \<and> z_val z' < 8
         \<and> (if z_val z' = 4 then CHR ''+'' else digit_char (z_val z')) = z'"
    by (intro z_char_cases) (simp add: fp)
  let ?p = "of_nat (dec ip) + of_nat (dec [d1, d2]) / 32 + of_nat (z_val z') / 256 :: rat"
  have ip: "ip \<noteq> []" "list_all isdigit ip"
    using c by (simp_all add: canonical_def)
  have 1: "Frac2Price s = Inr ?p"
    unfolding s using ip d1 d2 zc b by (intro Frac2Price_digits) simp_all
  have dv: "dec [d1, d2] div 10 = digit_val d1" "dec [d1, d2] mod 10 = digit_val d2"
    using digit_val_less [OF d2] by simp_all
  have 2: "Price2Frac ?p = Inr s"
    using Price2Frac_grid [OF b x', of "z_val z'"] zc d1 d2 digits_of_dec [OF c]
    unfolding s dv by simp
  have "?p * 256 = of_int (int (256 * dec ip + 8 * dec [d1, d2] + z_val z'))"
    by simp
  then have g: "of_int \<lfloor>?p * 256\<rfloor> = ?p * 256"
    by (simp only: floor_of_int)
  have "?p < 2 ^ 31"
    using b x' zc by (intro grid_bound) simp_all
  moreover have "0 \<le> ?p"
    by simp
  ultimately have "on_grid ?p"
    using g unfolding on_grid_def by (intro conjI)
  with 1 2 show ?thesis by blast
qed

lemma encode_decode_price:
  assumes "on_grid p"
  shows "\<exists>s. Price2Frac p = Inr s \<and> Frac2Price s = Inr p \<and> valid_frac s"
proof -
  define k where "k = nat \<lfloor>p * 256\<rfloor>"
  define I where "I = k div 256"
  define x where "x = k mod 256 div 8"
  define z where "z = k mod 8"
  from assms have p0: "0 \<le> p" and p1: "p < 2 ^ 31" and g: "of_int \<lfloor>p * 256\<rfloor> = p * 256"
    by (simp_all add: on_grid_def)
  from p0 have "0 \<le> \<lfloor>p * 256\<rfloor>" by simp
  then have "of_nat k = p * 256"
    using g by (simp add: k_def)
  then have pk: "p = of_nat k / 256" by simp
  have "k mod 256 mod 8 = k mod 8"
    by (rule mod_mod_cancel) simp
  then have "k mod 256 = 8 * x + z"
    unfolding x_def z_def using div_mult_mod_eq [of "k mod 256" 8] by simp
  then have kd: "k = 256 * I + 8 * x + z"
    unfolding I_def using div_mult_mod_eq [of k 256] by simp
  have p: "p = of_nat I + of_nat x / 32 + of_nat z / 256"
    unfolding pk kd by simp
  have x: "x < 32" and z: "z < 8"
    unfolding x_def z_def by simp_all
  have "of_nat I \<le> p"
    unfolding p by simp
  with p1 have "(of_nat I :: rat) < of_nat (2 ^ 31)"
    by simp
  then have I: "I < 2 ^ 31"
    by (simp only: of_nat_less_iff)
  let ?zc = "if z = 4 then CHR ''+'' else digit_char z"
  let ?d1 = "digit_char (x div 10)" and ?d2 = "digit_char (x mod 10)"
  let ?s = "digits_of I @ CHR ''-'' # [?d1, ?d2, ?zc]"
  have 1: "Price2Frac p = Inr ?s"
    unfolding p using I x z by (rule Price2Frac_grid)
  have xd: "x div 10 < 10"
    using x by simp
  have d: "isdigit ?d1" "isdigit ?d2"
    using xd by simp_all
  have dx: "dec [?d1, ?d2] = x"
    using xd by simp
  have zv: "z_val ?zc = z" and zd: "isdigit ?zc \<or> ?zc = CHR ''+''"
    and zm: "?zc \<in> set ''0123567+''"
    using z_digit_cases [OF z] by simp_all
  have "dec (digits_of I) \<le> 2 ^ 53"
    using I by (simp add: dec_digits_of)
  then have 2: "Frac2Price ?s = Inr p"
    using Frac2Price_digits [OF digits_of_nonempty digits_of_isdigit d zd, of I]
    unfolding p by (simp only: dec_digits_of dx zv)
  have f: "find_char CHR ''-'' ?s = Some (length (digits_of I))"
    using dash_not_digit [OF digits_of_isdigit] by (rule find_char_append)
  have 3: "valid_frac ?s"
    unfolding valid_frac_def f
    using canonical_digits_of [of I] I d dx x zm
    by (simp add: dec_digits_of Let_def)
  from 1 2 3 show ?thesis by blast
qed

text \<open>
  Claim C4, as stated, is false. The string \<open>99-164\<close> has a dash, the 32nds part 16 and the
  final digit 4, and it decodes to 99 + 16/32 + 4/256; the encoder writes the 256ths residue 4
  as \<open>+\<close>, so encoding gives \<open>99-16+\<close>. The string \<open>099-160\<close> decodes to 99.5, which
  encodes to \<open>99-160\<close>. The price \<open>2^31\<close> is a non-negative multiple of 1/256 for which the
  \<open>int\<close> cast of the encoder is undefined.
\<close>

theorem codec_round_trip_counterexample:
  "Frac2Price ''99-164'' = Inr (6369 / 64)
   \<and> Price2Frac (6369 / 64) = Inr ''99-16+''
   \<and> ''99-16+'' \<noteq> ''99-164''
   \<and> Frac2Price ''099-160'' = Inr (199 / 2)
   \<and> Price2Frac (199 / 2) = Inr ''99-160''
   \<and> ''99-160'' \<noteq> ''099-160''
   \<and> Price2Frac (2 ^ 31) = Inl UndefinedBehaviour"
proof -
  have "Frac2Price ''99-164'' = Inr (6369 / 64)" by code_simp
  moreover have "Price2Frac (6369 / 64) = Inr ''99-16+''" by code_simp
  moreover have "''99-16+'' \<noteq> ''99-164''" by simp
  moreover have "Frac2Price ''099-160'' = Inr (199 / 2)" by code_simp
  moreover have "Price2Frac (199 / 2) = Inr ''99-160''" by code_simp
  moreover have "''99-160'' \<noteq> ''099-160''" by simp
  moreover have "Price2Frac (2 ^ 31) = Inl UndefinedBehaviour" by code_simp
  ultimately show ?thesis by (intro conjI)
qed

text \<open>
  Claim C4, amended. For every string \<open>s\<close> made of a decimal integer part without sign or
  leading zero and below \<open>2^31\<close>, a dash, two digits with a value below 32, and a final
  character that is \<open>+\<close> or a digit from 0 to 7 other than 4, decoding succeeds and encoding
  the decoded price gives \<open>s\<close> back. For every price \<open>q\<close> with \<open>0 \<le> q < 2^31\<close> that is a
  multiple of 1/256, encoding succeeds and decoding the encoded string gives \<open>q\<close> back.
\<close>

theorem codec_round_trip:
  "(valid_frac s \<longrightarrow> (\<exists>p. Frac2Price s = Inr p \<and> Price2Frac p = Inr s))
   \<and> (on_grid q \<longrightarrow> (\<exists>t. Price2Frac q = Inr t \<and> Frac2Price t = Inr q))"
proof (intro conjI impI)
  assume "valid_frac s"
  then show "\<exists>p. Frac2Price s = Inr p \<and> Price2Frac p = Inr s"
    using decode_encode_string by blast
next
  assume "on_grid q"
  then show "\<exists>t. Price2Frac q = Inr t \<and> Frac2Price t = Inr q"
    using encode_decode_price by blast
qed

theorem codec_round_trip_witness:
  "valid_frac ''99-16+''
   \<and> on_grid (6369 / 64)
   \<and> (\<exists>p. Frac2Price ''99-16+'' = Inr p \<and> Price2Frac p = Inr ''99-16+'')
   \<and> (\<exists>t. Price2Frac (6369 / 64) = Inr t \<and> Frac2Price t = Inr (6369 / 64))
   \<and> Frac2Price ''99-16+'' = Inr (6369 / 64)
   \<and> Price2Frac (6369 / 64) = Inr ''99-16+''"
proof -
  have v: "valid_frac ''99-16+''"
    by (simp add: valid_frac_def find_char_def canonical_def isdigit_def dec_def digit_val_def)
  have g: "on_grid (6369 / 64)" by (simp add: on_grid_def)
  have d: "Frac2Price ''99-16+'' = Inr (6369 / 64)" by code_simp
  have e: "Price2Frac (6369 / 64) = Inr ''99-16+''" by code_simp
  from codec_round_trip [of "''99-16+''" "6369 / 64"] v g
  have "\<exists>p. Frac2Price ''99-16+'' = Inr p \<and> Price2Frac p = Inr ''99-16+''"
    and "\<exists>t. Price2Frac (6369 / 64) = Inr t \<and> Frac2Price t = Inr (6369 / 64)"
    by (simp_all only: simp_thms)
  with v g d e show ?thesis by (intro conjI)
qed

section \<open>Inbound connectors\<close>





subsection \<open>tradebookingservice.hpp: \<open>TradeBookingConnector::Subscribe\<close>\<close>




subsection \<open>pricingservice.hpp: \<open>PricingConnector::Subscribe\<close>\<close>





subsection \<open>marketdataservice.hpp: \<open>MarketDataConnector::Subscribe\<close>\<close>







section \<open>Fail-stop of the inbound connectors\<close>








section \<open>What an order-book record leaves in the store\<close>












end
